theory Spec2Isabelle
  imports Complex_Main "HOL-Library.Product_Lexorder"
begin

section \<open>Data model\<close>

text \<open>
  The script \<^verbatim>\<open>src/scripts/generate-cny-metrics.ts\<close> works on a list of
  \<^verbatim>\<open>Day = { date: string; count: number }\<close>. The date is an ISO calendar date that the
  code only ever reads through \<^verbatim>\<open>toDate\<close>, i.e. as a UTC midnight; it is modelled by its
  day number since 1970-01-01 (\<^verbatim>\<open>toDate(d).getTime() / 86400000\<close>). Counts are JavaScript
  numbers holding integers and are modelled as \<open>int\<close>.
\<close>

record Day =
  date :: int
  count :: int

section \<open>Summary statistics\<close>

text \<open>
  \<^verbatim>\<open>(x).toFixed(2)\<close> followed by \<^verbatim>\<open>Number(...)\<close>: the nearest multiple of 1/100, the larger
  one on a tie, the sign of a negative argument being treated separately.
\<close>

definition toFixed2 :: "rat \<Rightarrow> rat" where
  "toFixed2 x =
     (if x < 0 then - (of_int \<lfloor>- x * 100 + 1 / 2\<rfloor> / 100)
      else of_int \<lfloor>x * 100 + 1 / 2\<rfloor> / 100)"

record Stats =
  total :: int
  maxv :: int
  average :: rat
  current :: int
  best :: int

text \<open>The \<^verbatim>\<open>for (const d of days)\<close> loop of \<^verbatim>\<open>stats\<close> on the pair (current, best).\<close>

fun streaks :: "Day list \<Rightarrow> int \<times> int \<Rightarrow> int \<times> int" where
  "streaks [] cb = cb"
| "streaks (d # ds) (cur, bst) =
     (if count d > 0 then streaks ds (cur + 1, max bst (cur + 1))
      else streaks ds (0, bst))"

definition stats :: "Day list \<Rightarrow> Stats" where
  "stats days =
     (let total = foldl (\<lambda>a d. a + count d) 0 days;
          mx = foldl (\<lambda>a d. max a (count d)) 0 days;
          average = toFixed2 (of_int total / of_int (max 1 (int (length days))));
          cb = streaks days (0, 0)
      in \<lparr>total = total, maxv = mx, average = average, current = fst cb, best = snd cb\<rparr>)"


section \<open>Quantile classifier\<close>

definition colors :: "string list" where
  "colors = [''#5a2020'', ''#b82e2e'', ''#d94040'', ''#e8823a'', ''#f5c842'']"

text \<open>
  \<^verbatim>\<open>pick = (q) => vals[Math.floor((vals.length - 1) * q)]\<close>. It is only called on a
  non-empty \<open>vals\<close> with \<open>0 < q < 1\<close>, so the index is in range. The product is taken
  exactly; for the two-element list of the scenario below, \<open>1 * q\<close> is exact in IEEE
  arithmetic as well.
\<close>

definition pick :: "int list \<Rightarrow> rat \<Rightarrow> int" where
  "pick vals q = vals ! nat \<lfloor>of_int (int (length vals) - 1) * q\<rfloor>"

definition thresholds :: "Day list \<Rightarrow> int \<times> int \<times> int" where
  "thresholds days =
     (let vals = sort (filter (\<lambda>v. v > 0) (map count days))
      in (pick vals (35 / 100), pick vals (65 / 100), pick vals (88 / 100)))"

record Levels =
  qmax :: int
  levelColor :: "int \<Rightarrow> string"

definition quantileLevels :: "Day list \<Rightarrow> Levels" where
  "quantileLevels days =
     (let vals = sort (filter (\<lambda>v. v > 0) (map count days));
          mx = foldl max 0 (map count days)
      in if length vals = 0 then \<lparr>qmax = mx, levelColor = (\<lambda>c. colors ! 0)\<rparr>
         else
           (let (q1, q2, q3) = thresholds days
            in \<lparr>qmax = mx,
                levelColor = (\<lambda>c.
                  if c \<le> 0 then colors ! 0
                  else if c \<le> q1 then colors ! 1
                  else if c \<le> q2 then colors ! 2
                  else if c \<le> q3 then colors ! 3
                  else colors ! 4)\<rparr>))"

section \<open>Date helpers\<close>

text \<open>On day numbers: 1970-01-01 was a Thursday, and \<^verbatim>\<open>getUTCDay\<close> numbers Sunday as 0.\<close>

definition getUTCDay :: "int \<Rightarrow> int" where
  "getUTCDay dt = (dt + 4) mod 7"

definition alignSunday :: "int \<Rightarrow> int" where
  "alignSunday dt = (if getUTCDay dt \<noteq> 0 then dt - getUTCDay dt else dt)"

definition diffDays :: "int \<Rightarrow> int \<Rightarrow> int" where
  "diffDays a b = a - b"

definition addDays :: "int \<Rightarrow> int \<Rightarrow> int" where
  "addDays dt n = dt + n"

definition dateRange :: "int \<Rightarrow> int \<Rightarrow> int list" where
  "dateRange start endd = [start..endd]"

section \<open>Isometric projection\<close>

definition cellW :: rat where "cellW = 13"
definition cellH :: rat where "cellH = 13 / 2"
definition maxBarH :: rat where "maxBarH = 40"
definition width :: rat where "width = 950"
definition height :: rat where "height = 440"
definition gridCX :: rat where "gridCX = width * (1 / 4)"
definition gridTopY :: rat where "gridTopY = 50"

definition isoX :: "int \<Rightarrow> int \<Rightarrow> rat" where
  "isoX week dow = gridCX + of_int (week - dow) * cellW"

definition isoY :: "int \<Rightarrow> int \<Rightarrow> rat" where
  "isoY week dow = gridTopY + of_int (week + dow) * cellH"

text \<open>
  The grid frame that \<^verbatim>\<open>render\<close> derives from the day series. \<^verbatim>\<open>days[0]\<close> and
  \<^verbatim>\<open>days[days.length - 1]\<close> are read here; on an empty series the property access on
  \<^verbatim>\<open>undefined\<close> raises, which \<open>render\<close> below makes explicit, so these two are only
  used on a non-empty list.
\<close>

definition gridStart :: "Day list \<Rightarrow> int" where
  "gridStart days = alignSunday (date (hd days))"

definition totalWeeks :: "Day list \<Rightarrow> int" where
  "totalWeeks days = diffDays (date (last days)) (gridStart days) div 7"

text \<open>
  The cell of a day, as \<^verbatim>\<open>render\<close> recomputes it in each of its loops:
  \<^verbatim>\<open>week = totalWeeks - Math.floor(diffDays(d.date, gridStart) / 7)\<close> and
  \<^verbatim>\<open>dow = toDate(d.date).getUTCDay()\<close>.
\<close>

definition weekOf :: "Day list \<Rightarrow> Day \<Rightarrow> int" where
  "weekOf days dy = totalWeeks days - diffDays (date dy) (gridStart days) div 7"

definition dowOf :: "Day \<Rightarrow> int" where
  "dowOf dy = getUTCDay (date dy)"


section \<open>Path synthesizer\<close>

text \<open>
  \<^verbatim>\<open>barHeightMap\<close> is a \<^verbatim>\<open>Map<string, number>\<close> keyed by \<^verbatim>\<open>`${week},${dow}`\<close>. The
  decimal rendering of two integers around a comma determines the pair, so the key is
  modelled by the pair itself.
\<close>

type_synonym bars = "int \<times> int \<Rightarrow> rat option"

definition barHeightMap :: "Day list \<Rightarrow> bars" where
  "barHeightMap days =
     foldl (\<lambda>m dy.
        if count dy \<le> 0 then m
        else
          (let mx = qmax (quantileLevels days);
               ratio = (if mx > 0 then of_int (count dy) / of_int mx else 0)
           in m((weekOf days dy, dowOf dy) \<mapsto> ratio * maxBarH)))
       Map.empty days"

record Pt =
  px :: rat
  py :: rat
  pw :: int
  pd :: int

definition getPt :: "bars \<Rightarrow> int \<Rightarrow> int \<Rightarrow> Pt" where
  "getPt bm wk dw =
     (let cx = isoX wk dw; cy = isoY wk dw;
          h = (case bm (wk, dw) of None \<Rightarrow> 0 | Some v \<Rightarrow> v)
      in \<lparr>px = cx, py = cy - h, pw = wk, pd = dw\<rparr>)"

record Cand =
  cand_w :: int
  cand_d :: int
  score :: rat
  move :: "int \<times> int"

text \<open>
  The mutable variables of the walk. \<open>draws\<close> is not a variable of the source: it is
  the number of values taken from \<^verbatim>\<open>Math.random\<close> so far, the random source being
  the sequence \<open>rng 0, rng 1, ...\<close> of the values it returns during the call.
  Scores are JavaScript numbers; they are modelled as exact rationals.
\<close>

record Walk =
  currW :: int
  currD :: int
  lastDw :: int
  lastDd :: int
  recentHistory :: "(int \<times> int) list"
  waypoints :: "Pt list"
  draws :: nat

definition historyLen :: nat where "historyLen = 32"
definition steps :: nat where "steps = 80"

definition moves :: "(int \<times> int) list" where
  "moves = [(1, 0), (- 1, 0), (0, 1), (0, - 1), (1, 1), (1, - 1), (- 1, 1), (- 1, - 1)]"

definition score_of :: "rat \<Rightarrow> bars \<Rightarrow> Walk \<Rightarrow> int \<times> int \<Rightarrow> rat" where
  "score_of r bm s m =
     (let dw = fst m; dd = snd m;
          nw = currW s + dw; nd = currD s + dd;
          sc = r * 5;
          isFlat = (bm (nw, nd) = None);
          wasFlat = (bm (currW s, currD s) = None);
          sc = (if nw \<le> 8 then sc + 2 else sc);
          sc = (if nw \<le> 4 then sc + 1 else sc);
          sc = (if bm (nw, nd) \<noteq> None then sc + 15 else sc);
          sc = (if (nw, nd) \<in> set (recentHistory s) then sc - 1000 else sc);
          sc = (if dw = lastDw s \<and> dd = lastDd s
                then (let sc = sc + 50 in if isFlat \<and> wasFlat then sc + 30 else sc)
                else if dw = lastDw s \<or> dd = lastDd s then sc + 5
                else sc);
          sc = (if dw - dd < 0 then sc - 5000 else sc)
      in sc)"

text \<open>The \<^verbatim>\<open>for (const m of moves)\<close> loop; \<open>k\<close> is the position in the random sequence.\<close>

fun candidates_of ::
  "(nat \<Rightarrow> rat) \<Rightarrow> int \<Rightarrow> bars \<Rightarrow> Walk \<Rightarrow> (int \<times> int) list \<Rightarrow> nat \<Rightarrow> Cand list \<times> nat"
where
  "candidates_of rng tw bm s [] k = ([], k)"
| "candidates_of rng tw bm s (m # ms) k =
     (let nw = currW s + fst m; nd = currD s + snd m
      in if nw < 0 \<or> nw \<ge> tw \<or> nd < 0 \<or> nd > 6 then candidates_of rng tw bm s ms k
         else
           (let c = \<lparr>cand_w = nw, cand_d = nd, score = score_of (rng k) bm s m, move = m\<rparr>;
                rest = candidates_of rng tw bm s ms (k + 1)
            in (c # fst rest, snd rest)))"

datatype error = TypeError | Error string

datatype step_result = Moved Walk | Trapped | Raised error

definition commit :: "bars \<Rightarrow> Walk \<Rightarrow> Cand \<Rightarrow> nat \<Rightarrow> Walk" where
  "commit bm s choice k =
     (let key = (cand_w choice, cand_d choice);
          hist = recentHistory s @ [key];
          hist = (if length hist > historyLen then tl hist else hist)
      in \<lparr>currW = cand_w choice, currD = cand_d choice,
          lastDw = fst (move choice), lastDd = snd (move choice),
          recentHistory = hist,
          waypoints = waypoints s @ [getPt bm (cand_w choice) (cand_d choice)],
          draws = k\<rparr>)"

text \<open>
  One iteration of the \<^verbatim>\<open>for (let i = 0; i < steps; i++)\<close> loop. The sort is the
  stable \<^verbatim>\<open>Array.prototype.sort\<close> by descending score. \<^verbatim>\<open>topK[j]\<close> with \<open>j\<close> out of
  range is \<^verbatim>\<open>undefined\<close>, and reading \<^verbatim>\<open>choice.w\<close> then raises a TypeError.
\<close>

definition step :: "(nat \<Rightarrow> rat) \<Rightarrow> int \<Rightarrow> bars \<Rightarrow> Walk \<Rightarrow> step_result" where
  "step rng tw bm s =
     (let ck = candidates_of rng tw bm s moves (draws s);
          candidates = sort_key (\<lambda>c. - score c) (fst ck);
          valid = filter (\<lambda>c. score c > - 500) candidates
      in if length valid > 0 then
           (let topK = take 3 valid;
                j = \<lfloor>rng (snd ck) * of_nat (length topK)\<rfloor>
            in if 0 \<le> j \<and> j < int (length topK)
               then Moved (commit bm s (topK ! nat j) (snd ck + 1))
               else Raised TypeError)
         else Trapped)"

fun walk_loop :: "(nat \<Rightarrow> rat) \<Rightarrow> int \<Rightarrow> bars \<Rightarrow> nat \<Rightarrow> Walk \<Rightarrow> error + Walk" where
  "walk_loop rng tw bm 0 s = Inr s"
| "walk_loop rng tw bm (Suc n) s =
     (case step rng tw bm s of
        Moved s' \<Rightarrow> walk_loop rng tw bm n s'
      | Trapped \<Rightarrow> Inr s
      | Raised e \<Rightarrow> Inl e)"

definition walk_init :: "bars \<Rightarrow> Walk" where
  "walk_init bm =
     \<lparr>currW = 20, currD = 5, lastDw = 0, lastDd = 0, recentHistory = [],
      waypoints = [getPt bm 20 5], draws = 0\<rparr>"

text \<open>The walk of \<^verbatim>\<open>render\<close> on a day series, up to the end of its step loop.\<close>

definition dragon_walk :: "Day list \<Rightarrow> (nat \<Rightarrow> rat) \<Rightarrow> error + Walk" where
  "dragon_walk days rng =
     walk_loop rng (totalWeeks days) (barHeightMap days) steps (walk_init (barHeightMap days))"

text \<open>
  The state at the start of iteration \<open>n\<close> of the step loop, when the loop gets that
  far: \<open>None\<close> when it has stopped or raised before.
\<close>

fun state_after :: "(nat \<Rightarrow> rat) \<Rightarrow> int \<Rightarrow> bars \<Rightarrow> nat \<Rightarrow> Walk \<Rightarrow> Walk option" where
  "state_after rng tw bm 0 s = Some s"
| "state_after rng tw bm (Suc n) s =
     (case step rng tw bm s of
        Moved s' \<Rightarrow> state_after rng tw bm n s'
      | Trapped \<Rightarrow> None
      | Raised e \<Rightarrow> None)"

definition progress :: "Pt \<Rightarrow> int" where
  "progress p = pw p - pd p"


definition cell :: "Pt \<Rightarrow> int \<times> int" where
  "cell p = (pw p, pd p)"

definition walk_inv :: "Walk \<Rightarrow> bool" where
  "walk_inv s \<longleftrightarrow>
     waypoints s \<noteq> [] \<and> pw (last (waypoints s)) = currW s \<and> pd (last (waypoints s)) = currD s \<and>
     sorted (map progress (waypoints s))"

section \<open>Scene composer\<close>

text \<open>
  \<^verbatim>\<open>render\<close> returns \<^verbatim>\<open>parts.join("\n")\<close>. The document is modelled as the list of
  its parts, one element per \<^verbatim>\<open>parts.push\<close>, each carrying the values that the pushed
  text is computed from; text that is the same in every run is a \<open>Fixed\<close> part named
  by what it draws.
\<close>

datatype face = ShadowSide | LitSide | EdgeLine | TopFace

datatype part =
    Fixed string
  | CornerOrnament rat rat nat
  | Cloud rat rat rat rat nat
  | Lantern rat rat rat nat
  | Firecracker rat rat rat
  | FloorTile rat rat
  | BarFace face rat rat rat string
  | BarShimmer rat rat rat int
  | DragonPath "rat \<times> rat" "(rat \<times> rat \<times> rat \<times> rat \<times> rat \<times> rat) list"
  | DragonTail
  | DragonSegment nat
  | DragonHead
  | StreakText int int
  | DailyText int rat
  | TotalText int
  | LegendSwatch nat string
  | PlumBranch rat rat rat bool
  | BottomText int

fun is_dragon :: "part \<Rightarrow> bool" where
  "is_dragon (DragonPath p0 segs) = True"
| "is_dragon DragonTail = True"
| "is_dragon (DragonSegment i) = True"
| "is_dragon DragonHead = True"
| "is_dragon other = False"

definition floor_tiles :: "Day list \<Rightarrow> part list" where
  "floor_tiles days =
     map (\<lambda>dy. FloorTile (isoX (weekOf days dy) (dowOf dy)) (isoY (weekOf days dy) (dowOf dy))) days"

text \<open>The five pushes of one bar, for a day with a positive count.\<close>

definition bar_parts :: "Day list \<Rightarrow> Levels \<Rightarrow> Day \<Rightarrow> part list" where
  "bar_parts days lv dy =
     (if count dy \<le> 0 then []
      else
        (let dow = dowOf dy; week = weekOf days dy;
             ratio = (if qmax lv > 0 then of_int (count dy) / of_int (qmax lv) else 0);
             h = ratio * maxBarH;
             cx = isoX week dow; cy = isoY week dow;
             c = levelColor lv (count dy)
         in [BarFace ShadowSide cx cy h c, BarFace LitSide cx cy h c, BarFace EdgeLine cx cy h c,
             BarFace TopFace cx cy h c, BarShimmer cx cy h (week * 7 + dow)]))"

definition bars_layer :: "Day list \<Rightarrow> part list" where
  "bars_layer days =
     concat (map (bar_parts days (quantileLevels days))
       (sort_key (\<lambda>dy. (weekOf days dy, dowOf dy)) days))"

text \<open>The cubic segments of the motion path, one per consecutive pair of waypoints.\<close>

fun curve :: "Pt \<Rightarrow> Pt list \<Rightarrow> (rat \<times> rat \<times> rat \<times> rat \<times> rat \<times> rat) list" where
  "curve prev [] = []"
| "curve prev (cur # rest) =
     (px prev + (px cur - px prev) * (2 / 5), py prev,
      px prev + (px cur - px prev) * (3 / 5), py cur,
      px cur, py cur) # curve cur rest"

definition segCount :: nat where "segCount = 24"

definition dragon_parts :: "Pt list \<Rightarrow> part list" where
  "dragon_parts wps =
     (if length wps \<ge> 4
      then [DragonPath (px (hd wps), py (hd wps)) (curve (hd wps) (tl wps)), DragonTail]
           @ map DragonSegment [0..<segCount] @ [DragonHead]
      else [])"

definition dragon_layer :: "Day list \<Rightarrow> (nat \<Rightarrow> rat) \<Rightarrow> error + part list" where
  "dragon_layer days rng =
     (case dragon_walk days rng of
        Inl e \<Rightarrow> Inl e
      | Inr s \<Rightarrow> Inr (dragon_parts (waypoints s)))"

definition panel :: "Day list \<Rightarrow> part list" where
  "panel days =
     (let s = stats days
      in [Fixed ''panel background'', Fixed ''streak title'', StreakText (best s) (current s),
          Fixed ''divider'', Fixed ''daily title'', DailyText (maxv s) (average s),
          Fixed ''divider'', Fixed ''total title'', TotalText (total s), Fixed ''total unit''])"

definition legend :: "part list" where
  "legend =
     [Fixed ''legend low''] @ map (\<lambda>li. LegendSwatch li (colors ! li)) [0..<length colors]
     @ [Fixed ''legend high'']"

text \<open>
  Everything pushed before the floor plane. \<^verbatim>\<open>svgCloud\<close> numbers its clouds with the
  module-level counter \<^verbatim>\<open>cloudId\<close>, which \<^verbatim>\<open>render\<close> never resets; \<open>cid\<close> is its value
  when \<^verbatim>\<open>render\<close> is called. \<^verbatim>\<open>lanternId\<close> is reset before each lantern.
\<close>

definition preamble :: "nat \<Rightarrow> part list" where
  "preamble cid =
     [Fixed ''svg open'', Fixed ''defs'', Fixed ''background'', Fixed ''border glow'',
      Fixed ''border inner'',
      CornerOrnament 24 24 0, CornerOrnament (width - 24) 24 1,
      CornerOrnament 24 (height - 24) 2, CornerOrnament (width - 24) (height - 24) 3,
      Cloud 60 20 (9 / 20) (2 / 25) cid, Cloud 880 18 (2 / 5) (3 / 50) (cid + 1),
      Cloud 420 22 (3 / 10) (1 / 20) (cid + 2),
      Lantern 40 48 (3 / 4) 0, Lantern 910 48 (3 / 4) 0,
      Firecracker 82 30 (2 / 5), Firecracker 868 30 (2 / 5)]"

definition closing :: "int \<Rightarrow> nat \<Rightarrow> part list" where
  "closing year cid =
     [PlumBranch 340 100 (7 / 10) False, PlumBranch 460 90 (1 / 2) True,
      BottomText year,
      Cloud 80 (height - 30) (2 / 5) (1 / 25) (cid + 3),
      Cloud 550 (height - 25) (1 / 2) (1 / 25) (cid + 4),
      Cloud 950 (height - 35) (7 / 20) (3 / 100) (cid + 5),
      Fixed ''svg close'']"

datatype Duration = HalfYear | FullYear

text \<open>
  \<^verbatim>\<open>render(days, username, duration)\<close>. Besides its arguments it reads three things from
  its surroundings, which are parameters here: the values \<open>rng\<close> that \<^verbatim>\<open>Math.random\<close>
  returns, the year \<^verbatim>\<open>new Date().getFullYear()\<close>, and the cloud counter \<open>cid\<close>.
  \<^verbatim>\<open>days[0].date\<close> raises a TypeError on an empty series.
\<close>

definition render ::
  "Day list \<Rightarrow> string \<Rightarrow> Duration \<Rightarrow> (nat \<Rightarrow> rat) \<Rightarrow> int \<Rightarrow> nat \<Rightarrow> error + part list"
where
  "render days uname dur rng year cid =
     (if days = [] then Inl TypeError
      else
        (case dragon_layer days rng of
           Inl e \<Rightarrow> Inl e
         | Inr dragon \<Rightarrow>
             Inr (preamble cid @ floor_tiles days @ bars_layer days @ dragon
                  @ panel days @ legend @ closing year cid)))"

section \<open>Command line, ingestion and main\<close>

record Args =
  username :: string
  output' :: string
  duration :: Duration

text \<open>
  The argument loop of \<^verbatim>\<open>parseArgs\<close> on the remaining arguments \<^verbatim>\<open>args[i..]\<close>: \<^verbatim>\<open>val\<close>
  is \<^verbatim>\<open>undefined\<close> at the last argument and may be the empty string, both falsy.
\<close>

fun parseArgs_loop :: "string list \<Rightarrow> Args \<Rightarrow> Args" where
  "parseArgs_loop (key # val # rest) parsed =
     (if val = [] then parseArgs_loop (val # rest) parsed
      else if key = ''--username'' then parseArgs_loop rest (parsed\<lparr>username := val\<rparr>)
      else if key = ''--output'' then parseArgs_loop rest (parsed\<lparr>output' := val\<rparr>)
      else if key = ''--duration'' \<and> (val = ''half-year'' \<or> val = ''full-year'')
        then parseArgs_loop rest
               (parsed\<lparr>duration := (if val = ''half-year'' then HalfYear else FullYear)\<rparr>)
      else parseArgs_loop (val # rest) parsed)"
| "parseArgs_loop [key] parsed = parsed"
| "parseArgs_loop [] parsed = parsed"

definition parseArgs :: "string list \<Rightarrow> error + Args" where
  "parseArgs args =
     (let parsed = parseArgs_loop args
            \<lparr>username = [], output' = ''assets/cny_metrics.svg'', duration = FullYear\<rparr>
      in if username parsed = [] then Inl (Error ''Missing --username'') else Inr parsed)"

text \<open>
  \<^verbatim>\<open>fetchContributions\<close> from the response on. The network request and the scan of the
  page with regular expressions are the boundary: a response is modelled by its
  \<^verbatim>\<open>ok\<close> flag, its status as printed, and the (date, count) pairs that the scan passes to
  \<^verbatim>\<open>result.set\<close>, in order. A request that fails outright rejects with its own error.
\<close>

record Response =
  ok :: bool
  status :: string
  entries :: "(int \<times> int) list"

datatype fetched = Rejected error | Responded Response

definition result_set :: "(int \<times> int) list \<Rightarrow> int \<times> int \<Rightarrow> (int \<times> int) list" where
  "result_set m kv =
     (if fst kv \<in> fst ` set m then map (\<lambda>e. if fst e = fst kv then kv else e) m else m @ [kv])"

definition fetchContributions :: "fetched \<Rightarrow> error + (int \<times> int) list" where
  "fetchContributions f =
     (case f of
        Rejected e \<Rightarrow> Inl e
      | Responded resp \<Rightarrow>
          if \<not> ok resp then Inl (Error (''GitHub request failed: '' @ status resp))
          else
            (let result = foldl result_set [] (entries resp)
             in if length result = 0 then Inl (Error ''No contribution data parsed'')
                else Inr result))"

text \<open>
  \<^verbatim>\<open>main\<close>: \<open>today\<close> is \<^verbatim>\<open>iso(new Date())\<close>, \<open>f\<close> what the request comes back with, and
  \<open>wr\<close> the error of \<^verbatim>\<open>mkdir\<close>/\<^verbatim>\<open>writeFile\<close> if they fail. The result is the rejection
  of the promise, or the output path and the document written there.
\<close>

definition main ::
  "string list \<Rightarrow> int \<Rightarrow> fetched \<Rightarrow> (nat \<Rightarrow> rat) \<Rightarrow> int \<Rightarrow> nat \<Rightarrow> error option
   \<Rightarrow> error + string \<times> part list"
where
  "main argv today f rng year cid wr =
     (case parseArgs argv of
        Inl e \<Rightarrow> Inl e
      | Inr a \<Rightarrow>
          (let endd = today;
               lookback = (if duration a = FullYear then 365 else 180);
               start = alignSunday (addDays endd (- lookback))
           in case fetchContributions f of
                Inl e \<Rightarrow> Inl e
              | Inr m \<Rightarrow>
                  (let days = map (\<lambda>dt. \<lparr>date = dt,
                                count = (case map_of m dt of None \<Rightarrow> 0 | Some c \<Rightarrow> c)\<rparr>)
                               (dateRange start endd)
                   in case render days (username a) (duration a) rng year cid of
                        Inl e \<Rightarrow> Inl e
                      | Inr svg \<Rightarrow>
                          (case wr of Some e \<Rightarrow> Inl e | None \<Rightarrow> Inr (output' a, svg)))))"

text \<open>
  \<^verbatim>\<open>main().catch((e) => { console.error(e); process.exit(1) })\<close>: the exit code of the
  process.
\<close>

definition exit_code :: "error + string \<times> part list \<Rightarrow> nat" where
  "exit_code r = (case r of Inl e \<Rightarrow> 1 | Inr done \<Rightarrow> 0)"

section \<open>Concrete inputs\<close>

text \<open>
  A 182-day half-year window starting on Sunday 2025-08-03 (day number 20303) with four
  active days, and two random sequences with values in \<open>[0, 1)\<close>.
\<close>

definition halfyear_days :: "Day list" where
  "halfyear_days =
     map (\<lambda>i. \<lparr>date = 20303 + int i,
               count = (if i = 24 then 7 else if i = 30 then 3 else if i = 33 then 1
                        else if i = 100 then 2 else 0)\<rparr>) [0..<182]"

definition halfyear_bars :: bars where
  "halfyear_bars = [(22, 3) \<mapsto> 40, (21, 2) \<mapsto> 120 / 7, (21, 5) \<mapsto> 40 / 7, (11, 2) \<mapsto> 80 / 7]"

definition rng0 :: "nat \<Rightarrow> rat" where
  "rng0 k = of_nat ((7 * k + 3) mod 10) / 10"

definition rng_zero :: "nat \<Rightarrow> rat" where
  "rng_zero k = 0"

definition rng_late :: "nat \<Rightarrow> rat" where
  "rng_late k = (if k < 720 then 0 else 1 / 2)"

text \<open>A series of a single day, and a page from which no date is recovered.\<close>

definition one_day :: "Day list" where
  "one_day = [\<lparr>date = 20303, count = 4\<rparr>]"

definition empty_page :: Response where
  "empty_page = \<lparr>ok = True, status = ''200'', entries = []\<rparr>"

text \<open>The end-to-end scenario of the specification.\<close>

text \<open>
  A 366-day full-year window starting on Sunday 2025-02-02 (day number 20121), every
  count 0 except 5 on the days of index 100 and 101.
\<close>

definition scenario_days :: "Day list" where
  "scenario_days =
     map (\<lambda>i. \<lparr>date = 20121 + int i, count = (if i = 100 \<or> i = 101 then 5 else 0)\<rparr>) [0..<366]"

section \<open>Streak invariant\<close>

lemma streaks_inv:
  "0 \<le> cur \<Longrightarrow> cur \<le> bst \<Longrightarrow>
   0 \<le> fst (streaks ds (cur, bst)) \<and> fst (streaks ds (cur, bst)) \<le> snd (streaks ds (cur, bst))"
  by (induction ds arbitrary: cur bst) auto

text \<open>
  C10. For every day list the streak values returned by \<open>stats\<close> satisfy
  best \<ge> current \<ge> 0.
\<close>

theorem stats_best_ge_current:
  "0 \<le> current (stats days) \<and> current (stats days) \<le> best (stats days)"
  using streaks_inv [of 0 0 days] by (simp add: stats_def Let_def)

section \<open>The walk: steps, forward progress and the history buffer\<close>

lemma candidates_of_shape:
  "c \<in> set (fst (candidates_of rng tw bm s ms k)) \<Longrightarrow>
   \<exists>m \<in> set ms. \<exists>j. c = \<lparr>cand_w = currW s + fst m, cand_d = currD s + snd m,
                          score = score_of (rng j) bm s m, move = m\<rparr>"
proof (induction ms arbitrary: k)
  case Nil
  then show ?case by simp
next
  case (Cons m ms)
  then show ?case
    by (fastforce simp: Let_def split: if_splits)
qed

lemma score_of_upper:
  assumes "r < 1"
  shows "score_of r bm s m
         \<le> 103 - (if (currW s + fst m, currD s + snd m) \<in> set (recentHistory s) then 1000 else 0)
               - (if fst m - snd m < 0 then 5000 else 0)"
  using assms by (simp add: score_of_def Let_def)

lemma score_backward: "r < 1 \<Longrightarrow> fst m - snd m < 0 \<Longrightarrow> score_of r bm s m \<le> - 500"
  using score_of_upper [of r bm s m] by (simp split: if_splits)

lemma score_in_history:
  "r < 1 \<Longrightarrow> (currW s + fst m, currD s + snd m) \<in> set (recentHistory s) \<Longrightarrow>
   score_of r bm s m \<le> - 500"
  using score_of_upper [of r bm s m] by (simp split: if_splits)

lemma step_Moved_choice:
  assumes "step rng tw bm s = Moved s'"
  shows "\<exists>c \<in> set (fst (candidates_of rng tw bm s moves (draws s))).
           score c > - 500 \<and>
           s' = commit bm s c (snd (candidates_of rng tw bm s moves (draws s)) + 1)"
proof -
  define ck where "ck = candidates_of rng tw bm s moves (draws s)"
  define valid where "valid = filter (\<lambda>c. score c > - 500) (sort_key (\<lambda>c. - score c) (fst ck))"
  define j where "j = \<lfloor>rng (snd ck) * of_nat (length (take 3 valid))\<rfloor>"
  from assms have inr: "0 \<le> j \<and> j < int (length (take 3 valid))"
    and s': "s' = commit bm s (take 3 valid ! nat j) (snd ck + 1)"
    by (auto simp: step_def Let_def ck_def valid_def j_def split: if_splits)
  from inr have "nat j < length (take 3 valid)" by linarith
  then have "take 3 valid ! nat j \<in> set (take 3 valid)" by (rule nth_mem)
  then have "take 3 valid ! nat j \<in> set valid" by (rule in_set_takeD)
  then have "take 3 valid ! nat j \<in> set (fst ck) \<and> score (take 3 valid ! nat j) > - 500"
    by (simp add: valid_def)
  with s' show ?thesis unfolding ck_def by blast
qed

lemma step_Moved:
  assumes rng: "\<forall>k. 0 \<le> rng k \<and> rng k < 1" and st: "step rng tw bm s = Moved s'"
  shows "\<exists>m \<in> set moves. 0 \<le> fst m - snd m \<and>
           currW s' = currW s + fst m \<and> currD s' = currD s + snd m \<and>
           (currW s', currD s') \<notin> set (recentHistory s) \<and>
           waypoints s' = waypoints s @ [getPt bm (currW s') (currD s')] \<and>
           recentHistory s' =
             (let hist = recentHistory s @ [(currW s', currD s')]
              in if length hist > historyLen then tl hist else hist)"
proof -
  from step_Moved_choice [OF st] obtain c where
    c: "c \<in> set (fst (candidates_of rng tw bm s moves (draws s)))" and sc: "score c > - 500"
    and s': "s' = commit bm s c (snd (candidates_of rng tw bm s moves (draws s)) + 1)"
    by blast
  from candidates_of_shape [OF c] obtain m j where m: "m \<in> set moves"
    and ceq: "c = \<lparr>cand_w = currW s + fst m, cand_d = currD s + snd m,
                    score = score_of (rng j) bm s m, move = m\<rparr>"
    by blast
  from rng have r: "rng j < 1" by simp
  have fwd: "0 \<le> fst m - snd m"
    using score_backward [OF r, of m bm s] sc ceq by (cases "fst m - snd m < 0") auto
  have nh: "(currW s + fst m, currD s + snd m) \<notin> set (recentHistory s)"
    using score_in_history [OF r, of s m bm] sc ceq by auto
  show ?thesis
    using m fwd nh by (intro bexI [of _ m]) (simp_all add: s' ceq commit_def Let_def)
qed

lemma step_not_Raised:
  assumes rng: "\<forall>k. 0 \<le> rng k \<and> rng k < 1"
  shows "step rng tw bm s \<noteq> Raised e"
proof -
  have *: "0 \<le> \<lfloor>rng k * of_nat n\<rfloor> \<and> \<lfloor>rng k * of_nat n\<rfloor> < int n" if "0 < n" for k n
  proof -
    from rng have a: "0 \<le> rng k" and b: "rng k < 1" by simp_all
    from a have "0 \<le> rng k * of_nat n" by simp
    moreover from b that have "rng k * of_nat n < of_nat n" by simp
    then have "rng k * of_nat n < of_int (int n)" by simp
    ultimately show ?thesis by (simp add: floor_less_iff)
  qed
  show ?thesis
    using * by (auto simp: step_def Let_def)
qed


lemma sorted_le_last: "sorted xs \<Longrightarrow> x \<in> set xs \<Longrightarrow> x \<le> (last xs :: int)"
  by (induction xs) auto

lemma sorted_snoc_last:
  "sorted xs \<Longrightarrow> xs \<noteq> [] \<Longrightarrow> last xs \<le> (y::int) \<Longrightarrow> sorted (xs @ [y])"
  using sorted_le_last [of xs] by (fastforce simp: sorted_append)

lemma getPt_cell: "pw (getPt bm wk dw) = wk" "pd (getPt bm wk dw) = dw"
  by (simp_all add: getPt_def Let_def)

lemma step_walk_inv:
  assumes rng: "\<forall>k. 0 \<le> rng k \<and> rng k < 1" and st: "step rng tw bm s = Moved s'"
    and inv: "walk_inv s"
  shows "walk_inv s'"
proof -
  from step_Moved [OF rng st] obtain m where fwd: "0 \<le> fst m - snd m"
    and w: "currW s' = currW s + fst m" and d: "currD s' = currD s + snd m"
    and wp: "waypoints s' = waypoints s @ [getPt bm (currW s') (currD s')]"
    by blast
  have pr: "progress (getPt bm (currW s') (currD s')) = currW s' - currD s'"
    by (simp add: progress_def getPt_def Let_def)
  from inv have ne: "waypoints s \<noteq> []" and srt: "sorted (map progress (waypoints s))"
    and lst: "progress (last (waypoints s)) = currW s - currD s"
    by (simp_all add: walk_inv_def progress_def)
  have "last (map progress (waypoints s)) \<le> currW s' - currD s'"
    using ne lst fwd w d by (simp add: last_map)
  with srt ne have "sorted (map progress (waypoints s) @ [currW s' - currD s'])"
    by (intro sorted_snoc_last) simp_all
  then show ?thesis
    by (simp add: walk_inv_def wp pr getPt_cell)
qed

lemma walk_loop_inv:
  assumes rng: "\<forall>k. 0 \<le> rng k \<and> rng k < 1"
  shows "walk_inv s \<Longrightarrow> \<exists>t. walk_loop rng tw bm n s = Inr t \<and> walk_inv t"
proof (induction n arbitrary: s)
  case 0
  then show ?case by simp
next
  case (Suc n)
  show ?case
  proof (cases "step rng tw bm s")
    case (Moved s')
    with Suc.prems have "walk_inv s'" using step_walk_inv [OF rng] by blast
    from Suc.IH [OF this] show ?thesis by (simp add: Moved)
  next
    case Trapped
    with Suc.prems show ?thesis by simp
  next
    case (Raised e)
    with step_not_Raised [OF rng] show ?thesis by blast
  qed
qed

lemma walk_init_inv: "walk_inv (walk_init bm)"
  by (simp add: walk_inv_def walk_init_def getPt_def Let_def)

text \<open>
  C1. For every day series and every sequence of values in \<open>[0, 1)\<close> returned by the
  random source, the walk of \<^verbatim>\<open>render\<close> completes, and for each pair of consecutive
  waypoints the quantity week \<open>-\<close> dayOfWeek at the later one is greater than or equal to
  its value at the earlier one.
\<close>

theorem walk_forward_progress:
  assumes "\<forall>k. 0 \<le> rng k \<and> rng k < 1"
  shows "\<exists>s. dragon_walk days rng = Inr s \<and>
           (\<forall>i. Suc i < length (waypoints s) \<longrightarrow>
              progress (waypoints s ! i) \<le> progress (waypoints s ! Suc i))"
proof -
  from walk_loop_inv [OF assms walk_init_inv]
  obtain t where t: "dragon_walk days rng = Inr t" and inv: "walk_inv t"
    unfolding dragon_walk_def by blast
  from inv have "sorted (map progress (waypoints t))" by (simp add: walk_inv_def)
  then have "\<forall>i. Suc i < length (waypoints t) \<longrightarrow>
      progress (waypoints t ! i) \<le> progress (waypoints t ! Suc i)"
    by (auto simp: sorted_iff_nth_Suc)
  with t show ?thesis by blast
qed


lemma state_after_history_len:
  assumes rng: "\<forall>k. 0 \<le> rng k \<and> rng k < 1"
  shows "state_after rng tw bm n s = Some t \<Longrightarrow> length (recentHistory s) \<le> historyLen \<Longrightarrow>
         length (recentHistory t) \<le> historyLen"
proof (induction n arbitrary: s)
  case 0
  then show ?case by simp
next
  case (Suc n)
  from Suc.prems(1) obtain s' where st: "step rng tw bm s = Moved s'"
    and rest: "state_after rng tw bm n s' = Some t"
    by (auto split: step_result.splits)
  from step_Moved [OF rng st] have "length (recentHistory s') \<le> historyLen"
    using Suc.prems(2) by (auto simp: Let_def)
  from Suc.IH [OF rest this] show ?case .
qed

lemma walk_loop_state_after:
  "walk_loop rng tw bm n s = Inr t \<Longrightarrow> \<exists>i \<le> n. state_after rng tw bm i s = Some t"
proof (induction n arbitrary: s)
  case 0
  then show ?case by simp
next
  case (Suc n)
  show ?case
  proof (cases "step rng tw bm s")
    case (Moved s')
    with Suc.prems have "walk_loop rng tw bm n s' = Inr t" by simp
    from Suc.IH [OF this] obtain i where "i \<le> n" "state_after rng tw bm i s' = Some t" by blast
    then have "Suc i \<le> Suc n \<and> state_after rng tw bm (Suc i) s = Some t" by (simp add: Moved)
    then show ?thesis by blast
  next
    case Trapped
    with Suc.prems have "state_after rng tw bm 0 s = Some t" by simp
    then show ?thesis by blast
  next
    case (Raised e)
    with Suc.prems show ?thesis by simp
  qed
qed

text \<open>
  C4. For every day series and every sequence of random draws in \<open>[0, 1)\<close>: whenever the
  walk, in the state \<open>s\<close> it has reached after any number of iterations, commits a
  step, the cell it moves to is not in the recent-history buffer of \<open>s\<close>; that buffer
  holds at most 32 cells, and the committed cell is the waypoint appended.
\<close>

theorem walk_avoids_recent_history:
  assumes "\<forall>k. 0 \<le> rng k \<and> rng k < 1"
    and "state_after rng (totalWeeks days) (barHeightMap days) n (walk_init (barHeightMap days)) = Some s"
    and "step rng (totalWeeks days) (barHeightMap days) s = Moved s'"
  shows "(currW s', currD s') \<notin> set (recentHistory s) \<and>
         length (recentHistory s) \<le> historyLen \<and>
         waypoints s' = waypoints s @ [getPt (barHeightMap days) (currW s') (currD s')]"
proof -
  have "length (recentHistory (walk_init (barHeightMap days))) \<le> historyLen"
    by (simp add: walk_init_def)
  from state_after_history_len [OF assms(1) assms(2) this]
  have "length (recentHistory s) \<le> historyLen" .
  moreover from step_Moved [OF assms(1) assms(3)]
  have "(currW s', currD s') \<notin> set (recentHistory s)"
    and "waypoints s' = waypoints s @ [getPt (barHeightMap days) (currW s') (currD s')]"
    by auto
  ultimately show ?thesis by simp
qed


section \<open>Evaluating the concrete inputs\<close>

lemma rng0_range: "\<forall>k. 0 \<le> rng0 k \<and> rng0 k < 1"
  by (simp add: rng0_def)

lemma barHeightMap_foldl:
  "foldl (\<lambda>m dy. if count dy \<le> 0 then m else m(f dy \<mapsto> g dy)) m0 ds =
   m0 ++ map_of (rev (map (\<lambda>dy. (f dy, g dy)) (filter (\<lambda>dy. count dy > 0) ds)))"
  by (induction ds arbitrary: m0) (auto simp: not_le)

lemma barHeightMap_map_of:
  "barHeightMap days =
   map_of (rev (map (\<lambda>dy. ((weekOf days dy, dowOf dy),
                 (if qmax (quantileLevels days) > 0
                  then of_int (count dy) / of_int (qmax (quantileLevels days)) else 0) * maxBarH))
        (filter (\<lambda>dy. count dy > 0) days)))"
  unfolding barHeightMap_def Let_def by (subst barHeightMap_foldl) simp

lemma halfyear_positive:
  "filter (\<lambda>dy. count dy > 0) halfyear_days =
     [\<lparr>date = 20327, count = 7\<rparr>, \<lparr>date = 20333, count = 3\<rparr>,
      \<lparr>date = 20336, count = 1\<rparr>, \<lparr>date = 20403, count = 2\<rparr>]"
  by code_simp

lemma halfyear_frame:
  "totalWeeks halfyear_days = 25" "gridStart halfyear_days = 20303"
  "qmax (quantileLevels halfyear_days) = 7" "halfyear_days \<noteq> []"
  by code_simp+

lemma halfyear_barHeightMap: "barHeightMap halfyear_days = halfyear_bars"
  by (simp add: barHeightMap_map_of halfyear_positive halfyear_frame weekOf_def dowOf_def
      diffDays_def getUTCDay_def maxBarH_def halfyear_bars_def)


lemma floor_numeral_div: "\<lfloor>(numeral a :: rat) / numeral b\<rfloor> = numeral a div numeral b"
  using floor_divide_of_int_eq [of "numeral a" "numeral b", where ?'a = rat] by simp

lemma walk_loop_numeral:
  "walk_loop rng tw bm (numeral k) s =
     (case step rng tw bm s of
        Moved s' \<Rightarrow> walk_loop rng tw bm (pred_numeral k) s'
      | Trapped \<Rightarrow> Inr s
      | Raised e \<Rightarrow> Inl e)"
  by (simp add: numeral_eq_Suc)

lemma state_after_numeral:
  "state_after rng tw bm (numeral k) s =
     (case step rng tw bm s of
        Moved s' \<Rightarrow> state_after rng tw bm (pred_numeral k) s'
      | Trapped \<Rightarrow> None
      | Raised e \<Rightarrow> None)"
  by (simp add: numeral_eq_Suc)


lemma score_chain:
  fixes r5 :: rat
  shows "(let sc = r5;
          sc = (if a then sc + 2 else sc);
          sc = (if b then sc + 1 else sc);
          sc = (if c then sc + 15 else sc);
          sc = (if d then sc - 1000 else sc);
          sc = (if e then (let sc = sc + 50 in if f \<and> g then sc + 30 else sc)
                else if h then sc + 5 else sc);
          sc = (if i then sc - 5000 else sc)
      in sc) =
     r5 + (if a then 2 else 0) + (if b then 1 else 0) + (if c then 15 else 0)
     - (if d then 1000 else 0)
     + (if e then (if f \<and> g then 80 else 50) else if h then 5 else 0)
     - (if i then 5000 else 0)"
  by (simp add: Let_def)

lemma score_of_eval:
  "score_of r bm s m =
     r * 5
     + (if currW s + fst m \<le> 8 then 2 else 0)
     + (if currW s + fst m \<le> 4 then 1 else 0)
     + (if bm (currW s + fst m, currD s + snd m) \<noteq> None then 15 else 0)
     - (if (currW s + fst m, currD s + snd m) \<in> set (recentHistory s) then 1000 else 0)
     + (if fst m = lastDw s \<and> snd m = lastDd s
        then (if bm (currW s + fst m, currD s + snd m) = None \<and> bm (currW s, currD s) = None
              then 80 else 50)
        else if fst m = lastDw s \<or> snd m = lastDd s then 5 else 0)
     - (if fst m - snd m < 0 then 5000 else 0)"
  unfolding score_of_def
  by (simp only: Let_def [of "fst m"] Let_def [of "snd m"] Let_def [of "currW s + fst m"]
      Let_def [of "currD s + snd m"] Let_def [of "bm (currW s + fst m, currD s + snd m) = None"]
      Let_def [of "bm (currW s, currD s) = None"] score_chain)


lemma candidates_of_eval:
  "candidates_of rng tw bm s (m # ms) k =
     (if currW s + fst m < 0 \<or> currW s + fst m \<ge> tw \<or> currD s + snd m < 0 \<or> currD s + snd m > 6
      then candidates_of rng tw bm s ms k
      else apfst ((#) \<lparr>cand_w = currW s + fst m, cand_d = currD s + snd m,
                         score = score_of (rng k) bm s m, move = m\<rparr>)
             (candidates_of rng tw bm s ms (k + 1)))"
  by (simp add: Let_def apfst_def map_prod_def split_beta)

lemma step_eval:
  "step rng tw bm s =
     (case candidates_of rng tw bm s moves (draws s) of
        (cs, k) \<Rightarrow>
          (case take 3 (filter (\<lambda>c. score c > - 500) (sort_key (\<lambda>c. - score c) cs)) of
             [] \<Rightarrow> Trapped
           | c # cs' \<Rightarrow>
               if 0 \<le> \<lfloor>rng k * of_nat (Suc (length cs'))\<rfloor>
                  \<and> \<lfloor>rng k * of_nat (Suc (length cs'))\<rfloor> < int (Suc (length cs'))
               then Moved (commit bm s ((c # cs') ! nat \<lfloor>rng k * of_nat (Suc (length cs'))\<rfloor>) (k + 1))
               else Raised TypeError))"
proof -
  obtain cs k where ck: "candidates_of rng tw bm s moves (draws s) = (cs, k)"
    by (cases "candidates_of rng tw bm s moves (draws s)")
  show ?thesis
  proof (cases "take 3 (filter (\<lambda>c. score c > - 500) (sort_key (\<lambda>c. - score c) cs))")
    case Nil
    then have "filter (\<lambda>c. score c > - 500) (sort_key (\<lambda>c. - score c) cs) = []" by simp
    with Nil show ?thesis by (simp add: step_def ck)
  next
    case (Cons c cs')
    then have "filter (\<lambda>c. score c > - 500) (sort_key (\<lambda>c. - score c) cs) \<noteq> []" by auto
    with Cons show ?thesis by (simp add: step_def ck Let_def)
  qed
qed

lemma commit_eval:
  "commit bm s c k =
     \<lparr>currW = cand_w c, currD = cand_d c, lastDw = fst (move c), lastDd = snd (move c),
      recentHistory =
        (if length (recentHistory s) \<ge> historyLen
         then tl (recentHistory s @ [(cand_w c, cand_d c)])
         else recentHistory s @ [(cand_w c, cand_d c)]),
      waypoints = waypoints s @ [getPt bm (cand_w c) (cand_d c)], draws = k\<rparr>"
  by (simp add: commit_def Let_def)

lemma getPt_eval:
  "getPt bm wk dw =
     \<lparr>px = isoX wk dw, py = isoY wk dw - (case bm (wk, dw) of None \<Rightarrow> 0 | Some v \<Rightarrow> v),
      pw = wk, pd = dw\<rparr>"
  by (simp add: getPt_def Let_def)

lemma nth_Cons_numeral_eval: "(x # xs) ! numeral k = xs ! pred_numeral k"
  by (simp add: numeral_eq_Suc)

lemmas walk_eval =
  step_eval candidates_of_eval score_of_eval commit_eval getPt_eval moves_def
  isoX_def isoY_def gridCX_def gridTopY_def cellW_def cellH_def width_def historyLen_def
  walk_init_def steps_def floor_numeral_div walk_loop_numeral state_after_numeral

lemma halfyear_walk_rng0:
  "\<exists>s. dragon_walk halfyear_days rng0 = Inr s \<and>
       map cell (waypoints s) =
         [(20, 5), (21, 4), (22, 3), (21, 2), (21, 1), (21, 0), (22, 1), (23, 0), (24, 0)]"
  unfolding dragon_walk_def halfyear_frame halfyear_barHeightMap
  by (simp add: walk_eval rng0_def halfyear_bars_def cell_def del: candidates_of.simps(2))

lemma halfyear_walk_rng_zero:
  "\<exists>s. dragon_walk halfyear_days rng_zero = Inr s \<and>
       map cell (waypoints s) =
         [(20, 5), (21, 5), (22, 5), (23, 5), (24, 5), (24, 4), (24, 3), (24, 2), (24, 1), (24, 0)]"
  unfolding dragon_walk_def halfyear_frame halfyear_barHeightMap
  by (simp add: walk_eval rng_zero_def halfyear_bars_def cell_def del: candidates_of.simps(2))

lemma halfyear_step3:
  "\<exists>s s'. state_after rng0 (totalWeeks halfyear_days) (barHeightMap halfyear_days) 3
             (walk_init (barHeightMap halfyear_days)) = Some s \<and>
          step rng0 (totalWeeks halfyear_days) (barHeightMap halfyear_days) s = Moved s' \<and>
          recentHistory s = [(21, 4), (22, 3), (21, 2)] \<and> currW s' = 21 \<and> currD s' = 1"
  unfolding halfyear_frame halfyear_barHeightMap
  by (simp add: walk_eval rng0_def halfyear_bars_def del: candidates_of.simps(2))

text \<open>Witness of C1: the half-year window with the sequence \<open>rng0\<close>.\<close>

theorem walk_forward_progress_witness:
  "\<exists>s. dragon_walk halfyear_days rng0 = Inr s \<and> length (waypoints s) = 9 \<and>
       progress (waypoints s ! 0) \<le> progress (waypoints s ! Suc 0) \<and>
       progress (waypoints s ! 2) \<le> progress (waypoints s ! Suc 2)"
proof -
  from halfyear_walk_rng0 obtain s where s: "dragon_walk halfyear_days rng0 = Inr s"
    and cells: "map cell (waypoints s) =
      [(20, 5), (21, 4), (22, 3), (21, 2), (21, 1), (21, 0), (22, 1), (23, 0), (24, 0)]"
    by auto
  from cells have len: "length (waypoints s) = 9"
    using length_map [of cell "waypoints s"] by simp
  from walk_forward_progress [OF rng0_range, of halfyear_days] s
  have fwd: "\<forall>i. Suc i < length (waypoints s) \<longrightarrow>
      progress (waypoints s ! i) \<le> progress (waypoints s ! Suc i)"
    by simp
  from fwd [rule_format, of 0] len
  have p0: "progress (waypoints s ! 0) \<le> progress (waypoints s ! Suc 0)" by simp
  from fwd [rule_format, of 2] len
  have p2: "progress (waypoints s ! 2) \<le> progress (waypoints s ! Suc 2)" by simp
  note p0 p2
  with s len show ?thesis by blast
qed

text \<open>Witness of C4: the fourth step of the same walk.\<close>

theorem walk_avoids_recent_history_witness:
  "\<exists>s s'. state_after rng0 (totalWeeks halfyear_days) (barHeightMap halfyear_days) 3
             (walk_init (barHeightMap halfyear_days)) = Some s \<and>
          step rng0 (totalWeeks halfyear_days) (barHeightMap halfyear_days) s = Moved s' \<and>
          recentHistory s = [(21, 4), (22, 3), (21, 2)] \<and> currW s' = 21 \<and> currD s' = 1 \<and>
          (currW s', currD s') \<notin> set (recentHistory s) \<and>
          length (recentHistory s) \<le> historyLen"
proof -
  from halfyear_step3 obtain s s' where
    a: "state_after rng0 (totalWeeks halfyear_days) (barHeightMap halfyear_days) 3
          (walk_init (barHeightMap halfyear_days)) = Some s"
    and b: "step rng0 (totalWeeks halfyear_days) (barHeightMap halfyear_days) s = Moved s'"
    and c: "recentHistory s = [(21, 4), (22, 3), (21, 2)] \<and> currW s' = 21 \<and> currD s' = 1"
    by blast
  from walk_avoids_recent_history [OF rng0_range a b] a b c show ?thesis by blast
qed

section \<open>Dependence on the random source\<close>

lemma candidates_of_draws:
  "k \<le> snd (candidates_of rng tw bm s ms k) \<and> snd (candidates_of rng tw bm s ms k) \<le> k + length ms"
proof (induction ms arbitrary: k)
  case Nil
  then show ?case by simp
next
  case (Cons m ms)
  from Cons [of k] Cons [of "k + 1"] show ?case by (simp add: Let_def)
qed

lemma candidates_of_cong:
  "(\<And>j. k \<le> j \<Longrightarrow> j < k + length ms \<Longrightarrow> rng j = rng' j) \<Longrightarrow>
   candidates_of rng tw bm s ms k = candidates_of rng' tw bm s ms k"
proof (induction ms arbitrary: k)
  case Nil
  then show ?case by simp
next
  case (Cons m ms)
  have a: "candidates_of rng tw bm s ms k = candidates_of rng' tw bm s ms k"
    by (rule Cons.IH) (simp add: Cons.prems)
  have b: "candidates_of rng tw bm s ms (Suc k) = candidates_of rng' tw bm s ms (Suc k)"
    by (rule Cons.IH) (simp add: Cons.prems)
  have c: "rng k = rng' k" by (simp add: Cons.prems)
  show ?case by (simp add: Let_def a b c)
qed

lemma step_cong:
  assumes "\<And>j. j < draws s + 9 \<Longrightarrow> rng j = rng' j"
  shows "step rng tw bm s = step rng' tw bm s"
proof -
  have len: "length moves = 8" by (simp add: moves_def)
  have ck: "candidates_of rng tw bm s moves (draws s) = candidates_of rng' tw bm s moves (draws s)"
    by (rule candidates_of_cong) (simp add: assms len)
  from candidates_of_draws [of "draws s" rng' tw bm s moves]
  have "snd (candidates_of rng' tw bm s moves (draws s)) < draws s + 9" by (simp add: len)
  then have "rng (snd (candidates_of rng' tw bm s moves (draws s)))
           = rng' (snd (candidates_of rng' tw bm s moves (draws s)))"
    by (rule assms)
  then show ?thesis by (simp add: step_def ck Let_def)
qed

lemma step_draws:
  assumes "step rng tw bm s = Moved s'"
  shows "draws s' \<le> draws s + 9"
proof -
  from step_Moved_choice [OF assms] obtain c where
    "s' = commit bm s c (snd (candidates_of rng tw bm s moves (draws s)) + 1)" by blast
  then have "draws s' = snd (candidates_of rng tw bm s moves (draws s)) + 1"
    by (simp add: commit_def Let_def)
  with candidates_of_draws [of "draws s" rng tw bm s moves] show ?thesis
    by (simp add: moves_def)
qed

lemma walk_loop_cong:
  "(\<And>j. j < draws s + 9 * n \<Longrightarrow> rng j = rng' j) \<Longrightarrow>
   walk_loop rng tw bm n s = walk_loop rng' tw bm n s"
proof (induction n arbitrary: s)
  case 0
  then show ?case by simp
next
  case (Suc n)
  have st: "step rng tw bm s = step rng' tw bm s"
    by (rule step_cong) (simp add: Suc.prems)
  show ?case
  proof (cases "step rng tw bm s")
    case (Moved s')
    have "walk_loop rng tw bm n s' = walk_loop rng' tw bm n s'"
    proof (rule Suc.IH)
      fix j
      assume "j < draws s' + 9 * n"
      with step_draws [OF Moved] have "j < draws s + 9 * Suc n" by simp
      then show "rng j = rng' j" by (rule Suc.prems)
    qed
    moreover from Moved st have "step rng' tw bm s = Moved s'" by simp
    ultimately show ?thesis by (simp add: Moved)
  next
    case Trapped
    moreover from Trapped st have "step rng' tw bm s = Trapped" by simp
    ultimately show ?thesis by simp
  next
    case (Raised e)
    moreover from Raised st have "step rng' tw bm s = Raised e" by simp
    ultimately show ?thesis by simp
  qed
qed

text \<open>
  C3 (amended). \<^verbatim>\<open>render\<close> takes no seed: its random values come from the ambient
  \<^verbatim>\<open>Math.random\<close>. The walk reads at most 9 values per step, 720 in all, and two runs
  on the same day series in which the random source returns the same first 720 values
  give the same walk, hence the same waypoint sequence, and, for the same year stamp and
  the same starting value of the cloud counter, the same document.
\<close>

theorem render_same_draws:
  assumes "\<forall>j < 720. rng j = rng' j"
  shows "dragon_walk days rng = dragon_walk days rng' \<and>
         render days uname dur rng year cid = render days uname dur rng' year cid"
proof -
  have "dragon_walk days rng = dragon_walk days rng'"
    unfolding dragon_walk_def
    by (rule walk_loop_cong) (simp add: assms walk_init_def steps_def)
  then show ?thesis by (simp add: render_def dragon_layer_def)
qed

text \<open>Witness of C3 (amended): two sequences that differ from their 721st value on.\<close>

theorem render_same_draws_witness:
  "rng_zero 720 \<noteq> rng_late 720 \<and>
   dragon_walk halfyear_days rng_zero = dragon_walk halfyear_days rng_late \<and>
   render halfyear_days ''octocat'' HalfYear rng_zero 2026 0
     = render halfyear_days ''octocat'' HalfYear rng_late 2026 0"
proof -
  have agree: "\<forall>j < 720. rng_zero j = rng_late j" by (simp add: rng_zero_def rng_late_def)
  have differ: "rng_zero 720 \<noteq> rng_late 720" by (simp add: rng_zero_def rng_late_def)
  from render_same_draws [OF agree, of halfyear_days "''octocat''" HalfYear 2026 0] differ
  show ?thesis by simp
qed

lemma length_curve: "length (curve p ps) = length ps"
  by (induction ps arbitrary: p) simp_all

lemma dragon_parts_length:
  "4 \<le> length wps \<Longrightarrow> 4 \<le> length wps' \<Longrightarrow> dragon_parts wps = dragon_parts wps' \<Longrightarrow>
   length wps = length wps'"
proof -
  assume a: "4 \<le> length wps" and b: "4 \<le> length wps'" and eq: "dragon_parts wps = dragon_parts wps'"
  from a b eq have "curve (hd wps) (tl wps) = curve (hd wps') (tl wps')"
    by (simp add: dragon_parts_def)
  then have "length (curve (hd wps) (tl wps)) = length (curve (hd wps') (tl wps'))" by simp
  then have "length (tl wps) = length (tl wps')" by (simp add: length_curve)
  with a b show ?thesis by simp
qed

text \<open>
  C3 as stated fails: with the same day series, user name and duration, and nothing
  that the caller could pass to fix the draws, two runs whose random sources return
  different values produce different waypoint sequences and different documents.
\<close>

theorem render_depends_on_random:
  "dragon_walk halfyear_days rng0 \<noteq> dragon_walk halfyear_days rng_zero \<and>
   render halfyear_days ''octocat'' HalfYear rng0 2026 0
     \<noteq> render halfyear_days ''octocat'' HalfYear rng_zero 2026 0"
proof -
  from halfyear_walk_rng0 obtain s where s: "dragon_walk halfyear_days rng0 = Inr s"
    and cs: "map cell (waypoints s) =
      [(20, 5), (21, 4), (22, 3), (21, 2), (21, 1), (21, 0), (22, 1), (23, 0), (24, 0)]"
    by auto
  from halfyear_walk_rng_zero obtain t where t: "dragon_walk halfyear_days rng_zero = Inr t"
    and ct: "map cell (waypoints t) =
      [(20, 5), (21, 5), (22, 5), (23, 5), (24, 5), (24, 4), (24, 3), (24, 2), (24, 1), (24, 0)]"
    by auto
  from cs have ls: "length (waypoints s) = 9" using length_map [of cell "waypoints s"] by simp
  from ct have lt: "length (waypoints t) = 10" using length_map [of cell "waypoints t"] by simp
  from ls lt have ne: "waypoints s \<noteq> waypoints t" by auto
  then have walk: "dragon_walk halfyear_days rng0 \<noteq> dragon_walk halfyear_days rng_zero"
    using s t by auto
  have "dragon_parts (waypoints s) \<noteq> dragon_parts (waypoints t)"
    using dragon_parts_length [of "waypoints s" "waypoints t"] ls lt by auto
  then have "render halfyear_days ''octocat'' HalfYear rng0 2026 0
     \<noteq> render halfyear_days ''octocat'' HalfYear rng_zero 2026 0"
    by (simp add: render_def dragon_layer_def s t halfyear_frame)
  with walk show ?thesis by blast
qed

section \<open>The creature layer\<close>

lemma bar_parts_no_dragon: "p \<in> set (bar_parts days lv dy) \<Longrightarrow> \<not> is_dragon p"
  by (auto simp: bar_parts_def Let_def split: if_splits)

lemma static_no_dragon:
  "filter is_dragon (preamble cid) = []"
  "filter is_dragon (floor_tiles days) = []"
  "filter is_dragon (bars_layer days) = []"
  "filter is_dragon (panel days) = []"
  "filter is_dragon legend = []"
  "filter is_dragon (closing year cid) = []"
proof -
  show "filter is_dragon (preamble cid) = []" by (simp add: preamble_def)
  show "filter is_dragon (floor_tiles days) = []"
    by (simp add: floor_tiles_def filter_empty_conv)
  show "filter is_dragon (bars_layer days) = []"
    by (auto simp: bars_layer_def filter_empty_conv dest: bar_parts_no_dragon)
  show "filter is_dragon (panel days) = []" by (simp add: panel_def Let_def)
  show "filter is_dragon legend = []" by (simp add: legend_def filter_empty_conv)
  show "filter is_dragon (closing year cid) = []" by (simp add: closing_def)
qed

lemma dragon_parts_filter: "filter is_dragon (dragon_parts wps) = dragon_parts wps"
  by (auto simp: dragon_parts_def filter_id_conv)

text \<open>
  C8. On a non-empty day series, with draws in \<open>[0, 1)\<close>, the walk and \<^verbatim>\<open>render\<close> both
  complete without raising; if the waypoint list has fewer than 4 entries the
  document contains no part of the creature layer, and otherwise it contains the layer.
\<close>

theorem render_short_walk:
  assumes "days \<noteq> []" and "\<forall>k. 0 \<le> rng k \<and> rng k < 1"
  shows "\<exists>s doc. dragon_walk days rng = Inr s \<and>
           render days uname dur rng year cid = Inr doc \<and>
           (length (waypoints s) < 4 \<longrightarrow> filter is_dragon doc = []) \<and>
           (4 \<le> length (waypoints s) \<longrightarrow> DragonHead \<in> set doc)"
proof -
  from walk_loop_inv [OF assms(2) walk_init_inv]
  obtain s where s: "dragon_walk days rng = Inr s"
    unfolding dragon_walk_def by blast
  define doc where "doc = preamble cid @ floor_tiles days @ bars_layer days
    @ dragon_parts (waypoints s) @ panel days @ legend @ closing year cid"
  have r: "render days uname dur rng year cid = Inr doc"
    using assms(1) by (simp add: render_def dragon_layer_def s doc_def)
  have f: "filter is_dragon doc = dragon_parts (waypoints s)"
    by (simp add: doc_def static_no_dragon dragon_parts_filter)
  have short: "length (waypoints s) < 4 \<longrightarrow> filter is_dragon doc = []"
    by (simp add: f dragon_parts_def)
  have long: "4 \<le> length (waypoints s) \<longrightarrow> DragonHead \<in> set doc"
    by (simp add: doc_def dragon_parts_def)
  from s r short long show ?thesis by blast
qed

lemma one_day_walk:
  "\<exists>s. dragon_walk one_day rng0 = Inr s \<and> length (waypoints s) = 1"
proof -
  have tw: "totalWeeks one_day = 0"
    by (simp add: one_day_def totalWeeks_def gridStart_def alignSunday_def getUTCDay_def diffDays_def)
  show ?thesis
    unfolding dragon_walk_def tw
    by (simp add: walk_eval del: candidates_of.simps(2))
qed

text \<open>Witness of C8: a one-day series, on which the walk is trapped at once.\<close>

theorem render_short_walk_witness:
  "\<exists>s doc. dragon_walk one_day rng0 = Inr s \<and> length (waypoints s) = 1 \<and>
     render one_day ''octocat'' FullYear rng0 2026 0 = Inr doc \<and> filter is_dragon doc = []"
proof -
  have ne: "one_day \<noteq> []" by (simp add: one_day_def)
  from one_day_walk obtain s where s: "dragon_walk one_day rng0 = Inr s"
    and len: "length (waypoints s) = 1" by auto
  from render_short_walk [OF ne rng0_range, of "''octocat''" FullYear 2026 0] s len
  show ?thesis by auto
qed

section \<open>Grid cells\<close>

lemma alignSunday_bounds: "alignSunday dt \<le> dt \<and> dt - alignSunday dt < 7"
  by (simp add: alignSunday_def getUTCDay_def)

lemma sorted_hd_le: "sorted xs \<Longrightarrow> x \<in> set xs \<Longrightarrow> (hd xs :: int) \<le> x"
  by (induction xs) auto

lemma week_of_first_day:
  assumes "days \<noteq> []"
  shows "weekOf days (hd days) = totalWeeks days"
proof -
  from alignSunday_bounds [of "date (hd days)"]
  have "(date (hd days) - alignSunday (date (hd days))) div 7 = 0" by simp
  then show ?thesis by (simp add: weekOf_def gridStart_def diffDays_def)
qed

text \<open>
  C5 (amended). For a non-empty day series in ascending date order, the cell of every
  day lies within \<open>[0, totalWeeks] \<times> [0, 6]\<close>, both ends of the week range included:
  the first day of the series has week index \<open>totalWeeks\<close>.
\<close>

theorem grid_cell_bounds:
  assumes "sorted (map date days)" and "dy \<in> set days"
  shows "0 \<le> weekOf days dy \<and> weekOf days dy \<le> totalWeeks days \<and>
         0 \<le> dowOf dy \<and> dowOf dy \<le> 6 \<and>
         weekOf days (hd days) = totalWeeks days"
proof -
  from assms(2) have ne: "days \<noteq> []" by auto
  from assms(2) have mem: "date dy \<in> set (map date days)" by simp
  from sorted_hd_le [OF assms(1) mem] ne have lo: "date (hd days) \<le> date dy"
    by (simp add: hd_map)
  from sorted_le_last [OF assms(1) mem] ne have hi: "date dy \<le> date (last days)"
    by (simp add: last_map)
  from alignSunday_bounds [of "date (hd days)"] have gs: "gridStart days \<le> date (hd days)"
    by (simp add: gridStart_def)
  from gs lo have "0 \<le> (date dy - gridStart days) div 7" by simp
  moreover from hi have "(date dy - gridStart days) div 7 \<le> (date (last days) - gridStart days) div 7"
    by (intro zdiv_mono1) simp_all
  moreover have "0 \<le> dowOf dy \<and> dowOf dy \<le> 6"
    by (simp add: dowOf_def getUTCDay_def)
  ultimately show ?thesis
    using week_of_first_day [OF ne] by (simp add: weekOf_def totalWeeks_def diffDays_def)
qed

lemma scenario_sorted: "sorted (map date scenario_days)"
  by (simp add: scenario_days_def sorted_map)

lemma scenario_first_day: "scenario_days ! 0 = \<lparr>date = 20121, count = 0\<rparr>"
  by (simp add: scenario_days_def)

lemma scenario_frame:
  "length scenario_days = 366" "totalWeeks scenario_days = 52" "gridStart scenario_days = 20121"
  by code_simp+

text \<open>Witness of C5 (amended): day 100 of the full-year scenario.\<close>

theorem grid_cell_bounds_witness:
  "0 \<le> weekOf scenario_days (scenario_days ! 100) \<and>
   weekOf scenario_days (scenario_days ! 100) \<le> totalWeeks scenario_days \<and>
   0 \<le> dowOf (scenario_days ! 100) \<and> dowOf (scenario_days ! 100) \<le> 6 \<and>
   weekOf scenario_days (hd scenario_days) = totalWeeks scenario_days"
proof -
  have "scenario_days ! 100 \<in> set scenario_days"
    by (rule nth_mem) (simp add: scenario_frame)
  from grid_cell_bounds [OF scenario_sorted this] show ?thesis .
qed

text \<open>
  C5 as stated fails: the first day of the scenario window belongs to week
  \<open>totalWeeks\<close>, which the half-open range \<open>[0, totalWeeks)\<close> excludes.
\<close>

theorem grid_cell_week_not_below_totalWeeks:
  "scenario_days ! 0 \<in> set scenario_days \<and>
   \<not> weekOf scenario_days (scenario_days ! 0) < totalWeeks scenario_days"
proof -
  have "scenario_days ! 0 \<in> set scenario_days"
    by (rule nth_mem) (simp add: scenario_frame)
  moreover have "weekOf scenario_days (scenario_days ! 0) = 52"
    by (simp add: weekOf_def scenario_frame scenario_first_day diffDays_def)
  ultimately show ?thesis by (simp add: scenario_frame)
qed

section \<open>Projection\<close>

lemma iso_injective:
  assumes "isoX week dow = isoX week' dow'" and "isoY week dow = isoY week' dow'"
  shows "week = week' \<and> dow = dow'"
proof -
  from assms(1) have "(of_int (week - dow) :: rat) = of_int (week' - dow')"
    by (simp add: isoX_def cellW_def)
  then have a: "week - dow = week' - dow'" by (simp only: of_int_eq_iff)
  from assms(2) have "(of_int (week + dow) :: rat) = of_int (week' + dow')"
    by (simp add: isoY_def cellH_def)
  then have b: "week + dow = week' + dow'" by (simp only: of_int_eq_iff)
  from a b show ?thesis by arith
qed

text \<open>
  C7. Any two distinct (week, dayOfWeek) pairs with week in \<open>[0, totalWeeks]\<close> and
  dayOfWeek in \<open>[0, 6]\<close> are projected to distinct screen points.
\<close>

theorem projection_injective:
  assumes "0 \<le> week" "week \<le> totalWeeks days" "0 \<le> dow" "dow \<le> 6"
    and "0 \<le> week'" "week' \<le> totalWeeks days" "0 \<le> dow'" "dow' \<le> 6"
    and "(week, dow) \<noteq> (week', dow')"
  shows "(isoX week dow, isoY week dow) \<noteq> (isoX week' dow', isoY week' dow')"
  using assms(9) iso_injective [of week dow week' dow'] by auto

text \<open>Witness of C7: the cells (38, 2) and (37, 3) of the full-year scenario.\<close>

theorem projection_injective_witness:
  "(isoX 38 2, isoY 38 2) \<noteq> (isoX 37 3, isoY 37 3)"
  using projection_injective [of 38 scenario_days 2 37 3] by (simp add: scenario_frame)

section \<open>Fatal errors\<close>

lemma parseArgs_loop_username:
  "''--username'' \<notin> set args \<Longrightarrow> username (parseArgs_loop args parsed) = username parsed"
  by (induction args parsed rule: parseArgs_loop.induct) auto

lemma parseArgs_missing:
  "''--username'' \<notin> set args \<Longrightarrow> parseArgs args = Inl (Error ''Missing --username'')"
  using parseArgs_loop_username
    [of args "\<lparr>username = [], output' = ''assets/cny_metrics.svg'', duration = FullYear\<rparr>"]
  by (simp add: parseArgs_def Let_def)

text \<open>
  C9. When no \<^verbatim>\<open>--username\<close> argument is given, \<^verbatim>\<open>parseArgs\<close> throws, and \<^verbatim>\<open>main\<close>
  rejects with that error whatever the request would have returned; when the page
  yields no date at all, \<^verbatim>\<open>fetchContributions\<close> throws \<^verbatim>\<open>No contribution data parsed\<close>
  and \<^verbatim>\<open>main\<close> rejects with it. Each is called once, and in both cases the process
  exits with code 1.
\<close>

theorem fatal_errors:
  "(''--username'' \<notin> set argv \<longrightarrow>
      parseArgs argv = Inl (Error ''Missing --username'') \<and>
      main argv today f rng year cid wr = Inl (Error ''Missing --username'') \<and>
      exit_code (main argv today f rng year cid wr) = 1) \<and>
   (ok resp \<and> entries resp = [] \<longrightarrow>
      fetchContributions (Responded resp) = Inl (Error ''No contribution data parsed'') \<and>
      exit_code (main argv' today (Responded resp) rng year cid wr) = 1 \<and>
      (\<forall>a. parseArgs argv' = Inr a \<longrightarrow>
         main argv' today (Responded resp) rng year cid wr
           = Inl (Error ''No contribution data parsed'')))"
proof -
  have fetch: "fetchContributions (Responded resp) = Inl (Error ''No contribution data parsed'')"
    if "ok resp \<and> entries resp = []"
    using that by (simp add: fetchContributions_def)
  have "main argv' today (Responded resp) rng year cid wr
          = Inl (Error ''No contribution data parsed'')"
    if "ok resp \<and> entries resp = []" and "parseArgs argv' = Inr a" for a
    using that fetch by (simp add: main_def Let_def)
  moreover have "exit_code (main argv' today (Responded resp) rng year cid wr) = 1"
    if "ok resp \<and> entries resp = []"
    using that fetch by (cases "parseArgs argv'") (simp_all add: main_def Let_def exit_code_def)
  moreover have "main argv today f rng year cid wr = Inl (Error ''Missing --username'')"
    if "''--username'' \<notin> set argv"
    using parseArgs_missing [OF that] by (simp add: main_def)
  ultimately show ?thesis
    using fetch parseArgs_missing [of argv] by (auto simp: exit_code_def)
qed

text \<open>
  Witness of C9: a command line that only names the output file, and a page from
  which no date is recovered.
\<close>

theorem fatal_errors_witness:
  "parseArgs [''--output'', ''x.svg''] = Inl (Error ''Missing --username'') \<and>
   exit_code (main [''--output'', ''x.svg''] 20484 (Responded empty_page) rng0 2026 0 None) = 1 \<and>
   fetchContributions (Responded empty_page) = Inl (Error ''No contribution data parsed'') \<and>
   parseArgs [''--username'', ''octocat'']
     = Inr \<lparr>username = ''octocat'', output' = ''assets/cny_metrics.svg'', duration = FullYear\<rparr> \<and>
   main [''--username'', ''octocat''] 20484 (Responded empty_page) rng0 2026 0 None
     = Inl (Error ''No contribution data parsed'') \<and>
   exit_code (main [''--username'', ''octocat''] 20484 (Responded empty_page) rng0 2026 0 None) = 1"
proof -
  have a: "''--username'' \<notin> set [''--output'', ''x.svg'']" by simp
  have b: "ok empty_page \<and> entries empty_page = []" by (simp add: empty_page_def)
  have c: "parseArgs [''--username'', ''octocat'']
     = Inr \<lparr>username = ''octocat'', output' = ''assets/cny_metrics.svg'', duration = FullYear\<rparr>"
    by (simp add: parseArgs_def)
  from fatal_errors [of "[''--output'', ''x.svg'']" 20484 "Responded empty_page" rng0 2026 0 None
      empty_page "[''--username'', ''octocat'']"] a b c
  show ?thesis by (simp add: exit_code_def)
qed

section \<open>The end-to-end scenario\<close>

text \<open>
  C2 (amended). In the 366-day scenario all three thresholds equal 5, and because the
  classifier compares with \<open>\<le>\<close>, starting from the lowest threshold, both active days
  get colour 1 of the palette (\<^verbatim>\<open>#b82e2e\<close>), the lowest level of a positive count.
\<close>

theorem scenario_levels:
  "thresholds scenario_days = (5, 5, 5) \<and>
   count (scenario_days ! 100) = 5 \<and> count (scenario_days ! 101) = 5 \<and>
   levelColor (quantileLevels scenario_days) (count (scenario_days ! 100)) = colors ! 1 \<and>
   levelColor (quantileLevels scenario_days) (count (scenario_days ! 101)) = colors ! 1 \<and>
   colors ! 1 = ''#b82e2e''"
  by code_simp

text \<open>C2 as stated fails: neither active day gets the top colour of the palette.\<close>

theorem scenario_not_top_level:
  "levelColor (quantileLevels scenario_days) (count (scenario_days ! 100)) \<noteq> colors ! 4 \<and>
   levelColor (quantileLevels scenario_days) (count (scenario_days ! 101)) \<noteq> colors ! 4"
  by code_simp

text \<open>
  C6 (amended). In the 366-day scenario \<^verbatim>\<open>stats\<close> returns total 10, single-day
  maximum 5, average \<open>0.03\<close> (10/366 rounded to two decimals), current streak 0, since
  the series ends on days without activity, and best streak 2; the panel shows these values.
\<close>

theorem scenario_stats:
  "stats scenario_days = \<lparr>total = 10, maxv = 5, average = 3 / 100, current = 0, best = 2\<rparr> \<and>
   StreakText 2 0 \<in> set (panel scenario_days) \<and>
   DailyText 5 (3 / 100) \<in> set (panel scenario_days) \<and>
   TotalText 10 \<in> set (panel scenario_days)"
proof -
  have s: "stats scenario_days = \<lparr>total = 10, maxv = 5, average = 3 / 100, current = 0, best = 2\<rparr>"
    by code_simp
  then show ?thesis by (simp add: panel_def)
qed

text \<open>C6 as stated fails: the current streak of the scenario is not 2.\<close>

theorem scenario_current_streak_not_2:
  "current (stats scenario_days) \<noteq> 2"
  by code_simp

end
